theory Spec2Isabelle
  imports Main
begin

section \<open>Markup and the parser interface\<close>

text \<open>
  The scraper never looks at raw markup: every response body goes through
  \<^verbatim>\<open>BeautifulSoup(text, 'html.parser')\<close> first. A body is therefore represented by the
  tree that the parser builds from it. A tag carries its name, the tokens of its
  \<^verbatim>\<open>class\<close> attribute (a multi-valued attribute, kept as a list by the parser), its
  other attributes, and its contents.
\<close>

datatype node =
    Tag string "string list" "(string \<times> string) list" "node list"
  | NavigableString string

type_synonym html = "node list"

text \<open>
  An element handle is a node together with the siblings that follow it under the
  same parent; this is all that \<^verbatim>\<open>find_next_sibling\<close> needs of the parent link.
\<close>

type_synonym element = "node \<times> node list"

fun descendants :: "node list \<Rightarrow> element list" where
  "descendants [] = []"
| "descendants (NavigableString s # rest) = (NavigableString s, rest) # descendants rest"
| "descendants (Tag n cls ats cs # rest) =
     (Tag n cls ats cs, rest) # descendants cs @ descendants rest"

fun contents :: "element \<Rightarrow> node list" where
  "contents (Tag n cls ats cs, sibs) = cs"
| "contents (NavigableString s, sibs) = []"

fun join_with :: "string \<Rightarrow> string list \<Rightarrow> string" where
  "join_with sep [] = []"
| "join_with sep [x] = x"
| "join_with sep (x # y # ys) = x @ sep @ join_with sep (y # ys)"

text \<open>
  A \<^verbatim>\<open>class_\<close> filter given as a string matches a tag when one of the tag's class
  tokens equals it, or when the tokens joined by single spaces equal it.
\<close>

fun matches :: "string \<Rightarrow> string \<Rightarrow> element \<Rightarrow> bool" where
  "matches nm cl (Tag n cls ats cs, sibs) =
     (n = nm \<and> (cl \<in> set cls \<or> join_with '' '' cls = cl))"
| "matches nm cl (NavigableString s, sibs) = False"

text \<open>\<^verbatim>\<open>tag.string\<close>: defined only through a chain of single children ending in a string.\<close>

fun tag_string :: "node \<Rightarrow> string option" where
  "tag_string (NavigableString s) = Some s"
| "tag_string (Tag n cls ats [c]) = tag_string c"
| "tag_string (Tag n cls ats cs) = None"

definition find_all :: "node list \<Rightarrow> string \<Rightarrow> string \<Rightarrow> element list" where
  "find_all soup nm cl = filter (matches nm cl) (descendants soup)"

definition find_first :: "node list \<Rightarrow> string \<Rightarrow> string \<Rightarrow> element option" where
  "find_first soup nm cl = List.find (matches nm cl) (descendants soup)"

definition find_string :: "node list \<Rightarrow> string \<Rightarrow> string \<Rightarrow> string \<Rightarrow> element option" where
  "find_string soup nm cl s =
     List.find (\<lambda>e. matches nm cl e \<and> tag_string (fst e) = Some s) (descendants soup)"

fun has_name :: "string \<Rightarrow> node \<Rightarrow> bool" where
  "has_name nm (Tag n cls ats cs) = (n = nm)"
| "has_name nm (NavigableString s) = False"

fun siblings_from :: "node list \<Rightarrow> element list" where
  "siblings_from [] = []"
| "siblings_from (x # xs) = (x, xs) # siblings_from xs"

definition find_next_sibling :: "element \<Rightarrow> string \<Rightarrow> element option" where
  "find_next_sibling e nm = List.find (\<lambda>s. has_name nm (fst s)) (siblings_from (snd e))"

fun get_attr :: "element \<Rightarrow> string \<Rightarrow> string option" where
  "get_attr (Tag n cls ats cs, sibs) k = map_of ats k"
| "get_attr (NavigableString s, sibs) k = None"

definition is_space :: "char \<Rightarrow> bool" where
  "is_space c = (c \<in> set [CHR '' '', CHR 0x09, CHR 0x0A, CHR 0x0B, CHR 0x0C, CHR 0x0D])"

definition strip :: "string \<Rightarrow> string" where
  "strip s = rev (dropWhile is_space (rev (dropWhile is_space s)))"

fun all_strings :: "node list \<Rightarrow> string list" where
  "all_strings [] = []"
| "all_strings (NavigableString s # rest) = s # all_strings rest"
| "all_strings (Tag n cls ats cs # rest) = all_strings cs @ all_strings rest"

text \<open>\<^verbatim>\<open>get_text(strip=True)\<close>: every string below the tag, stripped, the empty ones dropped.\<close>

definition get_text :: "element \<Rightarrow> string" where
  "get_text e = concat (filter (\<lambda>s. s \<noteq> []) (map strip (all_strings (contents e))))"

section \<open>Values, errors and effects\<close>

datatype error = AttributeError | TypeError | KeyError | RequestException

record response =
  status_code :: int
  res_text :: html

text \<open>
  Modelled from the spec: the declaration of \<^verbatim>\<open>JobPost\<close> lives in \<^verbatim>\<open>jobs/__init__.py\<close>,
  which is not part of the sources at hand. The data model gives a job record the four
  summary fields and the four detail fields; \<^verbatim>\<open>_parse_job_details\<close> builds one from the
  detail fields alone, so every field can be absent.
\<close>

record job_post =
  title :: "string option"
  company_name :: "string option"
  deadline :: "string option"
  job_url :: "string option"
  location :: "string option"
  address :: "string option"
  mode :: "string option"
  description :: "string option"

record job_response =
  jobs :: "job_post list"

record scraper_input =
  results_wanted :: int

datatype event =
    LogInfo string
  | LogError string
  | ListingGet string
  | FetchHtml string
  | DetailGet string
  | Sleep nat

text \<open>
  The collaborators of the scraper. \<open>session_get\<close> is \<^verbatim>\<open>self.session.get\<close>: it answers
  with a response or raises. \<open>fetch_html\<close> is \<^verbatim>\<open>self.fetch_html\<close>, which is inherited
  and not defined in the scraper's own file: it is a parameter, returning the markup
  (or raising) together with the URLs it requested on the way.
\<close>

record env =
  session_get :: "string \<Rightarrow> error + response"
  fetch_html :: "string \<Rightarrow> (error + html) \<times> string list"

section \<open>Python helpers\<close>

definition digit_char :: "nat \<Rightarrow> char" where
  "digit_char d = ''0123456789'' ! d"

fun str_nat :: "nat \<Rightarrow> string" where
  "str_nat n = (if n < 10 then [digit_char n] else str_nat (n div 10) @ [digit_char (n mod 10)])"

declare str_nat.simps [simp del]

definition str_int :: "int \<Rightarrow> string" where
  "str_int i = (if i < 0 then CHR ''-'' # str_nat (nat (- i)) else str_nat (nat i))"

text \<open>\<^verbatim>\<open>xs[:k]\<close> for an integer \<open>k\<close>; a negative \<open>k\<close> counts from the end.\<close>

definition py_slice_to :: "'a list \<Rightarrow> int \<Rightarrow> 'a list" where
  "py_slice_to xs k = (if 0 \<le> k then take (nat k) xs else take (nat (int (length xs) + k)) xs)"

section \<open>The scraper\<close>

definition base_url :: string where
  "base_url = ''https://www.standoutsearch.com''"

definition delay :: nat where
  "delay = 5"

definition listing_url :: "nat \<Rightarrow> string" where
  "listing_url page = base_url @ ''/jobs?page='' @ str_nat page"

text \<open>
  One labelled field of \<^verbatim>\<open>_parse_job_details\<close>: the label is looked up, and only when it
  is there its next sibling of the given kind is read; a missing sibling makes
  \<^verbatim>\<open>None.get_text\<close> raise.
\<close>

definition labelled_field :: "html \<Rightarrow> string \<Rightarrow> string \<Rightarrow> error + string option" where
  "labelled_field soup label sib =
     (case find_string soup ''p'' ''chakra-text css-i3b6lo'' label of
        None \<Rightarrow> Inr None
      | Some elem \<Rightarrow>
          (case find_next_sibling elem sib of
             None \<Rightarrow> Inl AttributeError
           | Some s \<Rightarrow> Inr (Some (get_text s))))"

definition parse_job_details :: "html \<Rightarrow> error + job_post" where
  "parse_job_details soup =
     (case labelled_field soup ''Location:'' ''span'' of
        Inl e \<Rightarrow> Inl e
      | Inr loc \<Rightarrow>
     (case labelled_field soup ''Address:'' ''p'' of
        Inl e \<Rightarrow> Inl e
      | Inr adr \<Rightarrow>
     (case labelled_field soup ''Mode:'' ''span'' of
        Inl e \<Rightarrow> Inl e
      | Inr mo \<Rightarrow>
     (case labelled_field soup ''Description:'' ''p'' of
        Inl e \<Rightarrow> Inl e
      | Inr descr \<Rightarrow>
          Inr \<lparr>title = None, company_name = None, deadline = None, job_url = None,
               location = loc, address = adr, mode = mo, description = descr\<rparr>))))"

definition process_job :: "env \<Rightarrow> element \<Rightarrow> (error + job_post option) \<times> event list" where
  "process_job env container =
     (case find_first (contents container) ''p'' ''chakra-text css-134zrag'' of
        None \<Rightarrow> (Inl AttributeError, [])
      | Some title_elem \<Rightarrow>
     (case find_first (contents container) ''p'' ''chakra-text css-14pw5qv'' of
        None \<Rightarrow> (Inl AttributeError, [])
      | Some company_elem \<Rightarrow>
     (case find_first (contents container) ''a'' ''chakra-link chakra-button css-19vrdtv'' of
        None \<Rightarrow> (Inl TypeError, [])
      | Some link \<Rightarrow>
     (case get_attr link ''href'' of
        None \<Rightarrow> (Inl KeyError, [])
      | Some url \<Rightarrow>
     (case fetch_html env url of
        (Inl e, gets) \<Rightarrow> (Inl e, FetchHtml url # map DetailGet gets)
      | (Inr details_html, gets) \<Rightarrow>
     (case parse_job_details details_html of
        Inl e \<Rightarrow> (Inl e, FetchHtml url # map DetailGet gets)
      | Inr job_details \<Rightarrow>
          (Inr (Some \<lparr>title = Some (get_text title_elem),
                      company_name = Some (get_text company_elem),
                      deadline = map_option get_text
                        (find_first (contents container) ''span'' ''css-111tzkx''),
                      job_url = Some url,
                      location = location job_details,
                      address = address job_details,
                      mode = mode job_details,
                      description = description job_details\<rparr>),
           FetchHtml url # map DetailGet gets)))))))"

text \<open>The \<^verbatim>\<open>for container in job_containers\<close> loop, with \<open>jobs_list\<close> as its accumulator.\<close>

fun process_containers ::
  "env \<Rightarrow> element list \<Rightarrow> job_post list \<Rightarrow> (error + job_post list) \<times> event list" where
  "process_containers env [] jobs_list = (Inr jobs_list, [])"
| "process_containers env (container # rest) jobs_list =
     (case process_job env container of
        (Inl e, evs) \<Rightarrow> (Inl e, evs)
      | (Inr job_post, evs) \<Rightarrow>
          (case process_containers env rest
                  (case job_post of Some jp \<Rightarrow> jobs_list @ [jp] | None \<Rightarrow> jobs_list) of
             (r, evs') \<Rightarrow> (r, evs @ evs')))"

definition find_jobs_in_page ::
  "env \<Rightarrow> scraper_input \<Rightarrow> nat \<Rightarrow> (error + job_post list) \<times> event list" where
  "find_jobs_in_page env inp page =
     (case session_get env (listing_url page) of
        Inl e \<Rightarrow> (Inl e, [ListingGet (listing_url page)])
      | Inr res \<Rightarrow>
          if status_code res \<noteq> 200 then
            (Inr [], [ListingGet (listing_url page),
                      LogError (''Failed to fetch page '' @ str_nat page @ '': ''
                                @ str_int (status_code res))])
          else
            (case process_containers env (find_all (res_text res) ''div'' ''chakra-box'') [] of
               (r, evs) \<Rightarrow> (r, ListingGet (listing_url page) # evs)))"

function scrape_loop ::
  "env \<Rightarrow> scraper_input \<Rightarrow> job_post list \<Rightarrow> nat \<Rightarrow> (error + job_post list) \<times> event list" where
  "scrape_loop env inp job_list page =
     (if results_wanted inp \<le> int (length job_list) then (Inr job_list, [])
      else
        (case find_jobs_in_page env inp page of
           (Inl e, evs) \<Rightarrow> (Inl e, LogInfo (''StandOutSearch search page: '' @ str_nat page) # evs)
         | (Inr jobs_on_page, evs) \<Rightarrow>
             if jobs_on_page \<noteq> [] then
               (case scrape_loop env inp (job_list @ jobs_on_page) (page + 1) of
                  (r, evs') \<Rightarrow>
                    (r, LogInfo (''StandOutSearch search page: '' @ str_nat page) # evs
                        @ Sleep delay # evs'))
             else
               (Inr job_list, LogInfo (''StandOutSearch search page: '' @ str_nat page) # evs)))"
  by pat_completeness auto
termination
  by (relation "measure (\<lambda>(env, inp, job_list, page). nat (results_wanted inp - int (length job_list)))")
     auto

declare scrape_loop.simps [simp del]

definition scrape :: "env \<Rightarrow> scraper_input \<Rightarrow> (error + job_response) \<times> event list" where
  "scrape env inp =
     (case scrape_loop env inp [] 1 of
        (Inl e, evs) \<Rightarrow> (Inl e, evs)
      | (Inr job_list, evs) \<Rightarrow>
          (Inr \<lparr>jobs = py_slice_to job_list (results_wanted inp)\<rparr>, evs))"

section \<open>Observations on the effect trace\<close>

fun is_listing_get :: "event \<Rightarrow> bool" where
  "is_listing_get (ListingGet u) = True"
| "is_listing_get e = False"

fun is_fetch_html :: "event \<Rightarrow> bool" where
  "is_fetch_html (FetchHtml u) = True"
| "is_fetch_html e = False"

definition listing_fetches :: "event list \<Rightarrow> event list" where
  "listing_fetches tr = filter is_listing_get tr"

definition detail_calls :: "event list \<Rightarrow> event list" where
  "detail_calls tr = filter is_fetch_html tr"

text \<open>
  \<open>page_records env page js\<close>: the listing page answers with status 200 and \<open>js\<close> are
  the records of its job containers, one per container and in the containers' order.
\<close>

definition page_records :: "env \<Rightarrow> nat \<Rightarrow> job_post list \<Rightarrow> bool" where
  "page_records env page js =
     (case session_get env (listing_url page) of
        Inl e \<Rightarrow> False
      | Inr res \<Rightarrow>
          status_code res = 200 \<and>
          list_all2 (\<lambda>c jp. fst (process_job env c) = Inr (Some jp))
            (find_all (res_text res) ''div'' ''chakra-box'') js)"



text \<open>
  \<open>quota_respected q n tr\<close> scans a trace that starts with \<open>n\<close> records collected: every
  call of \<open>fetch_html\<close> stands for one more record, and every listing fetch must find
  fewer than \<open>q\<close> of them.
\<close>

fun quota_respected :: "int \<Rightarrow> nat \<Rightarrow> event list \<Rightarrow> bool" where
  "quota_respected q n [] = True"
| "quota_respected q n (ListingGet u # tr) = (int n < q \<and> quota_respected q n tr)"
| "quota_respected q n (FetchHtml u # tr) = quota_respected q (Suc n) tr"
| "quota_respected q n (e # tr) = quota_respected q n tr"




section \<open>The detail fetch of the specification\<close>

definition is_absolute_url :: "string \<Rightarrow> bool" where
  "is_absolute_url u = (take 7 u = ''http://'' \<or> take 8 u = ''https://'')"

definition site_relative :: "string \<Rightarrow> bool" where
  "site_relative u = (take 1 u = ''/'')"

definition resolve_url :: "string \<Rightarrow> string \<Rightarrow> string" where
  "resolve_url base u =
     (if is_absolute_url u then u
      else if site_relative u then base @ u
      else base @ ''/'' @ u)"

text \<open>
  Modelled from the spec: \<^verbatim>\<open>fetch_html\<close> is called by \<^verbatim>\<open>_process_job\<close> but defined
  outside the scraper's file, which is all of the sources at hand. The specification
  describes the detail fetch as one GET against the detail URL, absolute as it is and
  site-relative resolved against the base host, whose body is then parsed. The
  specification leaves open what a failed detail fetch does; here an exception of the
  transport is passed on and the body is returned whatever the status.
\<close>

definition fetch_html_spec ::
  "(string \<Rightarrow> error + response) \<Rightarrow> string \<Rightarrow> (error + html) \<times> string list" where
  "fetch_html_spec get u =
     (case get (resolve_url base_url u) of
        Inl e \<Rightarrow> (Inl e, [resolve_url base_url u])
      | Inr res \<Rightarrow> (Inr (res_text res), [resolve_url base_url u]))"

fun is_detail_get :: "event \<Rightarrow> bool" where
  "is_detail_get (DetailGet u) = True"
| "is_detail_get e = False"

section \<open>Fixtures\<close>

definition fixture_detail :: html where
  "fixture_detail =
     [Tag ''div'' [] []
        [Tag ''p'' [''chakra-text'', ''css-i3b6lo''] [] [NavigableString ''Location:''],
         Tag ''span'' [] [] [NavigableString '' Austin, TX '']]]"


definition fixture_card :: "string \<Rightarrow> string \<Rightarrow> node" where
  "fixture_card t u =
     Tag ''div'' [''chakra-box''] []
       [Tag ''p'' [''chakra-text'', ''css-134zrag''] [] [NavigableString t],
        Tag ''p'' [''chakra-text'', ''css-14pw5qv''] [] [NavigableString ''Acme''],
        Tag ''a'' [''chakra-link'', ''chakra-button'', ''css-19vrdtv''] [(''href'', u)] []]"


definition fixture_record :: "string \<Rightarrow> string \<Rightarrow> job_post" where
  "fixture_record t u =
     \<lparr>title = Some t, company_name = Some ''Acme'', deadline = None, job_url = Some u,
      location = Some ''Austin, TX'', address = None, mode = None, description = None\<rparr>"

definition fixture_record_bare :: "string \<Rightarrow> string \<Rightarrow> job_post" where
  "fixture_record_bare t u =
     \<lparr>title = Some t, company_name = Some ''Acme'', deadline = None, job_url = Some u,
      location = None, address = None, mode = None, description = None\<rparr>"

text \<open>
  A site with two jobs on its first listing page and one on its second; the detail pages
  answer with \<open>fixture_detail\<close>, and every other URL with 404.
\<close>

definition fixture_get :: "string \<Rightarrow> error + response" where
  "fixture_get u =
     (if u = ''https://www.standoutsearch.com/jobs?page=1''
      then Inr \<lparr>status_code = 200,
                res_text = [fixture_card ''A'' ''/jobs/1'', fixture_card ''B'' ''/jobs/2'']\<rparr>
      else if u = ''https://www.standoutsearch.com/jobs?page=2''
      then Inr \<lparr>status_code = 200,
                res_text = [fixture_card ''C'' ''https://www.standoutsearch.com/jobs/3'']\<rparr>
      else if u \<in> set [''https://www.standoutsearch.com/jobs/1'',
                        ''https://www.standoutsearch.com/jobs/2'',
                        ''https://www.standoutsearch.com/jobs/3'']
      then Inr \<lparr>status_code = 200, res_text = fixture_detail\<rparr>
      else Inr \<lparr>status_code = 404, res_text = []\<rparr>)"

definition fixture_env :: env where
  "fixture_env = \<lparr>session_get = fixture_get, fetch_html = (\<lambda>u. (Inr fixture_detail, [u]))\<rparr>"

text \<open>The same site with detail pages that carry none of the labels.\<close>

definition fixture_bare_env :: env where
  "fixture_bare_env = \<lparr>session_get = fixture_get, fetch_html = (\<lambda>u. (Inr [], [u]))\<rparr>"

text \<open>The same site with the detail fetch of the specification.\<close>

definition fixture_spec_env :: env where
  "fixture_spec_env = \<lparr>session_get = fixture_get, fetch_html = fetch_html_spec fixture_get\<rparr>"



section \<open>Lemmas on the trace and on one page\<close>

lemma listing_fetches_Nil [simp]: "listing_fetches [] = []"
  by (simp add: listing_fetches_def)

lemma listing_fetches_Cons [simp]:
  "listing_fetches (e # tr) = (if is_listing_get e then e # listing_fetches tr else listing_fetches tr)"
  by (simp add: listing_fetches_def)

lemma detail_calls_Nil [simp]: "detail_calls [] = []"
  by (simp add: detail_calls_def)

lemma detail_calls_Cons [simp]:
  "detail_calls (e # tr) = (if is_fetch_html e then e # detail_calls tr else detail_calls tr)"
  by (simp add: detail_calls_def)

lemma listing_fetches_append [simp]:
  "listing_fetches (xs @ ys) = listing_fetches xs @ listing_fetches ys"
  by (simp add: listing_fetches_def)

lemma detail_calls_append [simp]:
  "detail_calls (xs @ ys) = detail_calls xs @ detail_calls ys"
  by (simp add: detail_calls_def)

lemma process_job_Inr:
  assumes "process_job env c = (Inr jpo, evs)"
  shows "\<exists>jp url gets. jpo = Some jp \<and> title jp \<noteq> None \<and> company_name jp \<noteq> None
           \<and> job_url jp = Some url \<and> evs = FetchHtml url # map DetailGet gets"
  using assms
  by (auto simp: process_job_def split: option.splits sum.splits prod.splits)

lemma process_job_events:
  "snd (process_job env c) = [] \<or>
   (\<exists>url gets. snd (process_job env c) = FetchHtml url # map DetailGet gets)"
  by (auto simp: process_job_def split: option.splits sum.splits prod.splits)

lemma listing_fetches_process_job [simp]: "listing_fetches (snd (process_job env c)) = []"
  using process_job_events [of env c]
  by (auto simp: listing_fetches_def filter_empty_conv)



lemma detail_calls_map_DetailGet [simp]: "detail_calls (map DetailGet gets) = []"
  by (induction gets) auto

lemma process_containers_listing [simp]:
  "listing_fetches (snd (process_containers env cs acc)) = []"
proof (induction cs arbitrary: acc)
  case Nil
  show ?case by simp
next
  case (Cons c cs)
  obtain r evs where pj: "process_job env c = (r, evs)" by (cases "process_job env c")
  have evs: "listing_fetches evs = []"
    using listing_fetches_process_job [of env c] pj by simp
  show ?case
  proof (cases r)
    case (Inl e)
    with pj evs show ?thesis by simp
  next
    case (Inr jpo)
    obtain r' evs' where pc: "process_containers env cs
        (case jpo of Some jp \<Rightarrow> acc @ [jp] | None \<Rightarrow> acc) = (r', evs')"
      by (cases "process_containers env cs (case jpo of Some jp \<Rightarrow> acc @ [jp] | None \<Rightarrow> acc)")
    have "listing_fetches evs' = []"
      using Cons.IH [of "case jpo of Some jp \<Rightarrow> acc @ [jp] | None \<Rightarrow> acc"] pc by simp
    with pj Inr pc evs show ?thesis by simp
  qed
qed

lemma process_containers_Inr:
  assumes "process_containers env cs acc = (Inr js, evs)"
  shows "\<exists>new. js = acc @ new
           \<and> list_all2 (\<lambda>c jp. fst (process_job env c) = Inr (Some jp)) cs new
           \<and> detail_calls evs = map (\<lambda>jp. FetchHtml (the (job_url jp))) new"
  using assms
proof (induction cs arbitrary: acc js evs)
  case Nil
  then show ?case by simp
next
  case (Cons c cs)
  obtain r ev1 where pj: "process_job env c = (r, ev1)" by (cases "process_job env c")
  from Cons.prems pj obtain jpo where r: "r = Inr jpo"
    by (cases r) auto
  from process_job_Inr [OF pj [unfolded r]] obtain jp url gets where
    jp: "jpo = Some jp" "job_url jp = Some url" "ev1 = FetchHtml url # map DetailGet gets"
    by blast
  obtain r' ev2 where pc: "process_containers env cs (acc @ [jp]) = (r', ev2)"
    by (cases "process_containers env cs (acc @ [jp])")
  from Cons.prems pj r jp pc have r': "r' = Inr js" and evs: "evs = ev1 @ ev2"
    by auto
  from Cons.IH [OF pc [unfolded r']] obtain new where
    new: "js = (acc @ [jp]) @ new"
         "list_all2 (\<lambda>c jp. fst (process_job env c) = Inr (Some jp)) cs new"
         "detail_calls ev2 = map (\<lambda>jp. FetchHtml (the (job_url jp))) new"
    by blast
  have "fst (process_job env c) = Inr (Some jp)" using pj r jp by simp
  moreover have "detail_calls ev1 = [FetchHtml url]"
    using jp(3) by simp
  ultimately show ?case
    using new evs jp by (intro exI [of _ "jp # new"]) simp
qed

lemma find_jobs_in_page_listing [simp]:
  "listing_fetches (snd (find_jobs_in_page env inp page)) = [ListingGet (listing_url page)]"
proof -
  have "listing_fetches evs = []" if "process_containers env cs [] = (r, evs)" for cs r evs
    using process_containers_listing [of env cs "[]"] that by simp
  then show ?thesis
    by (auto simp: find_jobs_in_page_def split: sum.splits prod.splits)
qed

lemma find_jobs_in_page_Inr:
  assumes "find_jobs_in_page env inp page = (Inr js, evs)" and "js \<noteq> []"
  shows "page_records env page js \<and> detail_calls evs = map (\<lambda>jp. FetchHtml (the (job_url jp))) js"
proof -
  from assms obtain res where res: "session_get env (listing_url page) = Inr res"
    by (auto simp: find_jobs_in_page_def split: sum.splits)
  with assms have st: "status_code res = 200"
    by (auto simp: find_jobs_in_page_def split: if_splits)
  obtain r ev where pc: "process_containers env (find_all (res_text res) ''div'' ''chakra-box'') [] = (r, ev)"
    by (cases "process_containers env (find_all (res_text res) ''div'' ''chakra-box'') []")
  with assms res st have "r = Inr js" "evs = ListingGet (listing_url page) # ev"
    by (auto simp: find_jobs_in_page_def)
  with process_containers_Inr [of env _ "[]" js ev] pc res st show ?thesis
    by (auto simp: page_records_def)
qed

section \<open>Lemmas on the pagination loop\<close>

lemma scrape_loop_done:
  "results_wanted inp \<le> int (length job_list) \<Longrightarrow>
   scrape_loop env inp job_list page = (Inr job_list, [])"
  by (subst scrape_loop.simps) simp

lemma scrape_loop_raise:
  "\<not> results_wanted inp \<le> int (length job_list) \<Longrightarrow>
   find_jobs_in_page env inp page = (Inl e, evs) \<Longrightarrow>
   scrape_loop env inp job_list page =
     (Inl e, LogInfo (''StandOutSearch search page: '' @ str_nat page) # evs)"
  by (subst scrape_loop.simps) simp

lemma scrape_loop_stop:
  "\<not> results_wanted inp \<le> int (length job_list) \<Longrightarrow>
   find_jobs_in_page env inp page = (Inr [], evs) \<Longrightarrow>
   scrape_loop env inp job_list page =
     (Inr job_list, LogInfo (''StandOutSearch search page: '' @ str_nat page) # evs)"
  by (subst scrape_loop.simps) simp

lemma scrape_loop_next:
  "\<not> results_wanted inp \<le> int (length job_list) \<Longrightarrow>
   find_jobs_in_page env inp page = (Inr jobs_on_page, evs) \<Longrightarrow>
   jobs_on_page \<noteq> [] \<Longrightarrow>
   scrape_loop env inp (job_list @ jobs_on_page) (page + 1) = (r, evs') \<Longrightarrow>
   scrape_loop env inp job_list page =
     (r, LogInfo (''StandOutSearch search page: '' @ str_nat page) # evs @ Sleep delay # evs')"
  by (subst scrape_loop.simps) simp

lemma scrape_loop_fetch_bound:
  "length (listing_fetches (snd (scrape_loop env inp job_list page)))
     \<le> nat (results_wanted inp - int (length job_list))"
proof (induction env inp job_list page rule: scrape_loop.induct)
  case (1 env inp job_list page)
  show ?case
  proof (cases "results_wanted inp \<le> int (length job_list)")
    case True
    then show ?thesis by (simp add: scrape_loop_done)
  next
    case False
    obtain r evs where fj: "find_jobs_in_page env inp page = (r, evs)"
      by (cases "find_jobs_in_page env inp page")
    have one: "listing_fetches evs = [ListingGet (listing_url page)]"
      using find_jobs_in_page_listing [of env inp page] fj by simp
    show ?thesis
    proof (cases r)
      case (Inl e)
      with False fj one show ?thesis by (simp add: scrape_loop_raise)
    next
      case (Inr jobs_on_page)
      show ?thesis
      proof (cases "jobs_on_page = []")
        case True
        with False fj one Inr show ?thesis by (simp add: scrape_loop_stop)
      next
        case ne: False
        obtain r' evs' where sl: "scrape_loop env inp (job_list @ jobs_on_page) (page + 1) = (r', evs')"
          by (cases "scrape_loop env inp (job_list @ jobs_on_page) (page + 1)")
        have a: "length (listing_fetches evs')
                \<le> nat (results_wanted inp - (int (length job_list) + int (length jobs_on_page)))"
          using "1.IH" [OF False fj [symmetric] Inr ne] sl by simp
        have b: "1 \<le> length jobs_on_page"
          using ne by (cases jobs_on_page) simp_all
        have c: "listing_fetches (snd (scrape_loop env inp job_list page))
                   = ListingGet (listing_url page) # listing_fetches evs'"
          using one scrape_loop_next [OF False fj [unfolded Inr] ne sl] by simp
        have "Suc (length (listing_fetches evs')) \<le> nat (results_wanted inp - int (length job_list))"
          using a b False by linarith
        then show ?thesis using c by simp
      qed
    qed
  qed
qed

lemma scrape_trace: "snd (scrape env inp) = snd (scrape_loop env inp [] 1)"
  by (simp add: scrape_def split: prod.splits sum.splits)

lemma scrape_Inr:
  "fst (scrape env inp) = Inr r \<Longrightarrow>
   \<exists>job_list. fst (scrape_loop env inp [] 1) = Inr job_list
     \<and> r = \<lparr>jobs = py_slice_to job_list (results_wanted inp)\<rparr>"
  by (auto simp: scrape_def split: prod.splits sum.splits)

lemma find_jobs_in_page_calls:
  assumes "find_jobs_in_page env inp page = (Inr js, evs)"
  shows "detail_calls evs = map (\<lambda>jp. FetchHtml (the (job_url jp))) js"
proof -
  from assms obtain res where res: "session_get env (listing_url page) = Inr res"
    by (auto simp: find_jobs_in_page_def split: sum.splits)
  show ?thesis
  proof (cases "status_code res = 200")
    case False
    with assms res show ?thesis by (auto simp: find_jobs_in_page_def)
  next
    case True
    obtain r ev where pc:
      "process_containers env (find_all (res_text res) ''div'' ''chakra-box'') [] = (r, ev)"
      by (cases "process_containers env (find_all (res_text res) ''div'' ''chakra-box'') []")
    with assms res True have "r = Inr js" "evs = ListingGet (listing_url page) # ev"
      by (auto simp: find_jobs_in_page_def)
    with process_containers_Inr [of env _ "[]" js ev] pc show ?thesis by auto
  qed
qed

lemma page_records_sound:
  assumes "page_records env page js" and "jp \<in> set js"
  shows "title jp \<noteq> None \<and> company_name jp \<noteq> None"
proof -
  from assms(1) obtain cs where
    "list_all2 (\<lambda>c jp. fst (process_job env c) = Inr (Some jp)) cs js"
    by (auto simp: page_records_def split: sum.splits)
  then have len: "length cs = length js"
    and nth: "\<forall>i<length js. fst (process_job env (cs ! i)) = Inr (Some (js ! i))"
    by (simp_all add: list_all2_conv_all_nth)
  from assms(2) obtain i where "i < length js" "jp = js ! i"
    by (auto simp: in_set_conv_nth)
  with nth have "fst (process_job env (cs ! i)) = Inr (Some jp)" by simp
  then obtain c where "fst (process_job env c) = Inr (Some jp)" ..
  then have "process_job env c = (Inr (Some jp), snd (process_job env c))"
    by (metis prod.collapse)
  from process_job_Inr [OF this] show ?thesis by auto
qed

lemma scrape_loop_pages:
  assumes "scrape_loop env inp job_list page = (Inr all_jobs, evs)"
  shows "\<exists>pages. all_jobs = job_list @ concat pages
           \<and> (\<forall>i<length pages. page_records env (page + i) (pages ! i))
           \<and> detail_calls evs = map (\<lambda>jp. FetchHtml (the (job_url jp))) (concat pages)"
  using assms
proof (induction env inp job_list page arbitrary: all_jobs evs rule: scrape_loop.induct)
  case (1 env inp job_list page)
  show ?case
  proof (cases "results_wanted inp \<le> int (length job_list)")
    case True
    with "1.prems" have "all_jobs = job_list" "evs = []"
      by (simp_all add: scrape_loop_done)
    then show ?thesis by (intro exI [of _ "[]"]) simp
  next
    case False
    obtain r ev where fj: "find_jobs_in_page env inp page = (r, ev)"
      by (cases "find_jobs_in_page env inp page")
    show ?thesis
    proof (cases r)
      case (Inl e)
      with False fj "1.prems" show ?thesis by (simp add: scrape_loop_raise)
    next
      case (Inr jobs_on_page)
      note fj' = fj [unfolded Inr]
      show ?thesis
      proof (cases "jobs_on_page = []")
        case True
        from scrape_loop_stop [OF False fj' [unfolded True]] "1.prems"
        have "all_jobs = job_list"
          "evs = LogInfo (''StandOutSearch search page: '' @ str_nat page) # ev"
          by simp_all
        moreover have "detail_calls ev = []"
          using find_jobs_in_page_calls [OF fj'] True by simp
        ultimately show ?thesis by (intro exI [of _ "[]"]) simp
      next
        case ne: False
        obtain r' ev' where sl:
          "scrape_loop env inp (job_list @ jobs_on_page) (page + 1) = (r', ev')"
          by (cases "scrape_loop env inp (job_list @ jobs_on_page) (page + 1)")
        from scrape_loop_next [OF False fj' ne sl] "1.prems"
        have r': "r' = Inr all_jobs"
          and evs: "evs = LogInfo (''StandOutSearch search page: '' @ str_nat page) # ev
                           @ Sleep delay # ev'"
          by simp_all
        from "1.IH" [OF False fj [symmetric] Inr ne sl [unfolded r']]
        obtain pages where pages:
          "all_jobs = (job_list @ jobs_on_page) @ concat pages"
          "\<forall>i<length pages. page_records env (page + 1 + i) (pages ! i)"
          "detail_calls ev' = map (\<lambda>jp. FetchHtml (the (job_url jp))) (concat pages)"
          by blast
        from find_jobs_in_page_Inr [OF fj' ne] find_jobs_in_page_calls [OF fj']
        have here: "page_records env page jobs_on_page"
          "detail_calls ev = map (\<lambda>jp. FetchHtml (the (job_url jp))) jobs_on_page"
          by simp_all
        have "\<forall>i<length (jobs_on_page # pages).
                page_records env (page + i) ((jobs_on_page # pages) ! i)"
        proof (intro allI impI)
          fix i assume "i < length (jobs_on_page # pages)"
          then show "page_records env (page + i) ((jobs_on_page # pages) ! i)"
            using here(1) pages(2) by (cases i) simp_all
        qed
        moreover have "all_jobs = job_list @ concat (jobs_on_page # pages)"
          using pages(1) by simp
        moreover have "detail_calls evs
            = map (\<lambda>jp. FetchHtml (the (job_url jp))) (concat (jobs_on_page # pages))"
          using evs here(2) pages(3) by simp
        ultimately show ?thesis by blast
      qed
    qed
  qed
qed

lemma scrape_pages:
  assumes "fst (scrape env inp) = Inr r"
  shows "\<exists>pages. jobs r = py_slice_to (concat pages) (results_wanted inp)
           \<and> (\<forall>i<length pages. page_records env (Suc i) (pages ! i))
           \<and> detail_calls (snd (scrape env inp))
               = map (\<lambda>jp. FetchHtml (the (job_url jp))) (concat pages)"
proof -
  from scrape_Inr [OF assms] obtain job_list where
    jl: "fst (scrape_loop env inp [] 1) = Inr job_list"
    and r: "r = \<lparr>jobs = py_slice_to job_list (results_wanted inp)\<rparr>" by blast
  from jl have "scrape_loop env inp [] 1 = (Inr job_list, snd (scrape_loop env inp [] 1))"
    by (metis prod.collapse)
  from scrape_loop_pages [OF this] obtain pages where
    "job_list = [] @ concat pages"
    "\<forall>i<length pages. page_records env (1 + i) (pages ! i)"
    "detail_calls (snd (scrape_loop env inp [] 1))
       = map (\<lambda>jp. FetchHtml (the (job_url jp))) (concat pages)"
    by blast
  with r show ?thesis by (intro exI [of _ pages]) (simp add: scrape_trace)
qed

lemma set_py_slice_to: "set (py_slice_to xs k) \<subseteq> set xs"
  by (auto simp: py_slice_to_def dest: in_set_takeD)

lemma fixture_scrape_10:
  "fst (scrape fixture_env \<lparr>results_wanted = 10\<rparr>)
     = Inr \<lparr>jobs = [fixture_record ''A'' ''/jobs/1'', fixture_record ''B'' ''/jobs/2'',
                    fixture_record ''C'' ''https://www.standoutsearch.com/jobs/3'']\<rparr>"
  by code_simp

lemma fixture_scrape_1_calls:
  "detail_calls (snd (scrape fixture_env \<lparr>results_wanted = 1\<rparr>))
     = [FetchHtml ''/jobs/1'', FetchHtml ''/jobs/2'']"
  by code_simp

lemma fixture_bare_scrape_1:
  "fst (scrape fixture_bare_env \<lparr>results_wanted = 1\<rparr>)
     = Inr \<lparr>jobs = [fixture_record_bare ''A'' ''/jobs/1'']\<rparr>"
  by code_simp


lemma fixture_scrape_1:
  "fst (scrape fixture_env \<lparr>results_wanted = 1\<rparr>) = Inr \<lparr>jobs = [fixture_record ''A'' ''/jobs/1'']\<rparr>"
  by code_simp

lemma quota_respected_quiet:
  "listing_fetches xs = [] \<Longrightarrow> quota_respected q n xs"
proof (induction xs arbitrary: n)
  case Nil
  show ?case by simp
next
  case (Cons e xs)
  then show ?case by (cases e) (simp_all split: if_splits)
qed

lemma quota_respected_append:
  "quota_respected q n (xs @ ys)
     = (quota_respected q n xs \<and> quota_respected q (n + length (detail_calls xs)) ys)"
proof (induction xs arbitrary: n)
  case Nil
  show ?case by simp
next
  case (Cons e xs)
  show ?case by (cases e) (simp_all add: Cons.IH)
qed

lemma quota_respected_before_get:
  "quota_respected q n (pre @ ListingGet u # post) \<Longrightarrow>
   int (n + length (detail_calls pre)) < q"
  by (simp add: quota_respected_append)

lemma find_jobs_in_page_events:
  "\<exists>ev. snd (find_jobs_in_page env inp page) = ListingGet (listing_url page) # ev
        \<and> listing_fetches ev = []"
proof -
  have "listing_fetches evs = []" if "process_containers env cs [] = (r, evs)" for cs r evs
    using process_containers_listing [of env cs "[]"] that by simp
  then show ?thesis
    by (auto simp: find_jobs_in_page_def split: sum.splits prod.splits)
qed

lemma scrape_loop_quota_respected:
  "quota_respected (results_wanted inp) (length job_list) (snd (scrape_loop env inp job_list page))"
proof (induction env inp job_list page rule: scrape_loop.induct)
  case (1 env inp job_list page)
  show ?case
  proof (cases "results_wanted inp \<le> int (length job_list)")
    case True
    then show ?thesis by (simp add: scrape_loop_done)
  next
    case False
    obtain r evs where fj: "find_jobs_in_page env inp page = (r, evs)"
      by (cases "find_jobs_in_page env inp page")
    from find_jobs_in_page_events [of env inp page] fj obtain ev where
      ev: "evs = ListingGet (listing_url page) # ev" "listing_fetches ev = []"
      by auto
    have here: "quota_respected (results_wanted inp) (length job_list) evs"
      using ev False quota_respected_quiet [OF ev(2)] by simp
    show ?thesis
    proof (cases r)
      case (Inl e)
      with False fj here show ?thesis by (simp add: scrape_loop_raise)
    next
      case (Inr jobs_on_page)
      note fj' = fj [unfolded Inr]
      show ?thesis
      proof (cases "jobs_on_page = []")
        case True
        with False fj' here show ?thesis by (simp add: scrape_loop_stop)
      next
        case ne: False
        obtain r' evs' where sl:
          "scrape_loop env inp (job_list @ jobs_on_page) (page + 1) = (r', evs')"
          by (cases "scrape_loop env inp (job_list @ jobs_on_page) (page + 1)")
        have later: "quota_respected (results_wanted inp) (length (job_list @ jobs_on_page)) evs'"
          using "1.IH" [OF False fj [symmetric] Inr ne] sl by simp
        have calls: "length (detail_calls evs) = length jobs_on_page"
          using find_jobs_in_page_calls [OF fj'] by simp
        have "quota_respected (results_wanted inp) (length job_list) (evs @ Sleep delay # evs')"
          using here later calls by (simp add: quota_respected_append)
        then show ?thesis
          using scrape_loop_next [OF False fj' ne sl] by simp
      qed
    qed
  qed
qed

lemma fixture_scrape_3_trace:
  "snd (scrape fixture_env \<lparr>results_wanted = 3\<rparr>)
     = [LogInfo ''StandOutSearch search page: 1'',
        ListingGet ''https://www.standoutsearch.com/jobs?page=1'',
        FetchHtml ''/jobs/1'', DetailGet ''/jobs/1'',
        FetchHtml ''/jobs/2'', DetailGet ''/jobs/2'', Sleep 5,
        LogInfo ''StandOutSearch search page: 2'']
       @ ListingGet ''https://www.standoutsearch.com/jobs?page=2''
       # [FetchHtml ''https://www.standoutsearch.com/jobs/3'',
          DetailGet ''https://www.standoutsearch.com/jobs/3'', Sleep 5]"
  by code_simp













lemma site_relative_not_absolute: "site_relative u \<Longrightarrow> \<not> is_absolute_url u"
  by (cases u) (auto simp: site_relative_def is_absolute_url_def)

lemma base_url_absolute: "is_absolute_url (base_url @ u)"
  by (simp add: is_absolute_url_def base_url_def)

lemma filter_detail_get_map [simp]: "filter is_detail_get (map DetailGet gets) = map DetailGet gets"
  by (induction gets) auto

lemma process_job_spec_trace:
  assumes "fetch_html env = fetch_html_spec (session_get env)"
    and "find_first (contents c) ''p'' ''chakra-text css-134zrag'' = Some t"
    and "find_first (contents c) ''p'' ''chakra-text css-14pw5qv'' = Some co"
    and "find_first (contents c) ''a'' ''chakra-link chakra-button css-19vrdtv'' = Some link"
    and "get_attr link ''href'' = Some href"
  shows "snd (process_job env c) = [FetchHtml href, DetailGet (resolve_url base_url href)]"
  using assms
  by (auto simp: process_job_def fetch_html_spec_def split: sum.splits prod.splits)

section \<open>The claims\<close>

text \<open>
  C1. For every quota \<open>Q \<ge> 0\<close> given as \<open>results_wanted\<close>, the job sequence that
  \<open>scrape\<close> returns has at most \<open>Q\<close> entries.
\<close>

theorem scrape_length_le_quota:
  assumes "0 \<le> results_wanted inp" and "fst (scrape env inp) = Inr r"
  shows "int (length (jobs r)) \<le> results_wanted inp"
proof -
  from scrape_Inr [OF assms(2)] obtain job_list where
    "r = \<lparr>jobs = py_slice_to job_list (results_wanted inp)\<rparr>" by blast
  with assms(1) show ?thesis by (simp add: py_slice_to_def)
qed

theorem scrape_length_le_quota_witness:
  "0 \<le> results_wanted \<lparr>results_wanted = 1\<rparr>
   \<and> fst (scrape fixture_env \<lparr>results_wanted = 1\<rparr>) = Inr \<lparr>jobs = [fixture_record ''A'' ''/jobs/1'']\<rparr>
   \<and> int (length (jobs \<lparr>jobs = [fixture_record ''A'' ''/jobs/1'']\<rparr>)) \<le> results_wanted \<lparr>results_wanted = 1\<rparr>"
proof -
  have q: "0 \<le> results_wanted \<lparr>results_wanted = 1\<rparr>" by simp
  from scrape_length_le_quota [OF q fixture_scrape_1] q fixture_scrape_1
  show ?thesis by blast
qed

text \<open>
  C9. For every quota \<open>Q \<ge> 0\<close>, \<open>scrape\<close> terminates and performs at most \<open>Q + 1\<close>
  listing-page fetches. Termination is the totality of \<open>scrape_loop\<close>: its recursion
  was accepted with the measure \<open>Q - length job_list\<close>, which decreases because the loop
  only continues after a page that contributed at least one record. Every fetch is made
  with fewer than \<open>Q\<close> records collected, so there are in fact at most \<open>Q\<close> of them
  (\<open>scrape_loop_fetch_bound\<close>).
\<close>

theorem scrape_listing_fetch_bound:
  assumes "0 \<le> results_wanted inp"
  shows "int (length (listing_fetches (snd (scrape env inp)))) \<le> results_wanted inp + 1"
proof -
  have "length (listing_fetches (snd (scrape_loop env inp [] 1))) \<le> nat (results_wanted inp)"
    using scrape_loop_fetch_bound [of env inp "[]" 1] by simp
  with assms show ?thesis by (simp add: scrape_trace)
qed

theorem scrape_listing_fetch_bound_witness:
  "0 \<le> results_wanted \<lparr>results_wanted = 1\<rparr>
   \<and> int (length (listing_fetches (snd (scrape fixture_env \<lparr>results_wanted = 1\<rparr>))))
       \<le> results_wanted \<lparr>results_wanted = 1\<rparr> + 1"
proof -
  have q: "0 \<le> results_wanted \<lparr>results_wanted = 1\<rparr>" by simp
  from scrape_listing_fetch_bound [OF q, of fixture_env] q show ?thesis by blast
qed

text \<open>
  C6. Every record in the result that \<open>scrape\<close> returns has a title and a company name;
  the detail fields may be absent, as they are in the witness, where the detail page
  carries no label.
\<close>

theorem scrape_records_named:
  assumes "fst (scrape env inp) = Inr r" and "jp \<in> set (jobs r)"
  shows "title jp \<noteq> None \<and> company_name jp \<noteq> None"
proof -
  from scrape_pages [OF assms(1)] obtain pages where
    slice: "jobs r = py_slice_to (concat pages) (results_wanted inp)"
    and recs: "\<forall>i<length pages. page_records env (Suc i) (pages ! i)"
    by blast
  from assms(2) slice set_py_slice_to have "jp \<in> set (concat pages)" by fastforce
  then obtain js where "js \<in> set pages" "jp \<in> set js" by auto
  then obtain i where "i < length pages" "jp \<in> set (pages ! i)"
    by (auto simp: in_set_conv_nth)
  with recs page_records_sound show ?thesis by blast
qed

theorem scrape_records_named_witness:
  "fst (scrape fixture_bare_env \<lparr>results_wanted = 1\<rparr>)
     = Inr \<lparr>jobs = [fixture_record_bare ''A'' ''/jobs/1'']\<rparr>
   \<and> fixture_record_bare ''A'' ''/jobs/1'' \<in> set (jobs \<lparr>jobs = [fixture_record_bare ''A'' ''/jobs/1'']\<rparr>)
   \<and> title (fixture_record_bare ''A'' ''/jobs/1'') \<noteq> None
   \<and> company_name (fixture_record_bare ''A'' ''/jobs/1'') \<noteq> None
   \<and> location (fixture_record_bare ''A'' ''/jobs/1'') = None
   \<and> address (fixture_record_bare ''A'' ''/jobs/1'') = None
   \<and> mode (fixture_record_bare ''A'' ''/jobs/1'') = None
   \<and> description (fixture_record_bare ''A'' ''/jobs/1'') = None"
proof -
  have m: "fixture_record_bare ''A'' ''/jobs/1''
             \<in> set (jobs \<lparr>jobs = [fixture_record_bare ''A'' ''/jobs/1'']\<rparr>)"
    by simp
  from scrape_records_named [OF fixture_bare_scrape_1 m] fixture_bare_scrape_1 m
  show ?thesis by (simp add: fixture_record_bare_def)
qed

text \<open>
  C7. The result that \<open>scrape\<close> returns is ordered by page and, within a page, by
  container: it is the quota-long prefix of the records of page 1, followed by those of
  page 2, and so on, and the records of each page correspond one to one, in order, to
  the job containers of that page's markup.
\<close>

theorem scrape_order:
  assumes "fst (scrape env inp) = Inr r"
  shows "\<exists>pages. jobs r = py_slice_to (concat pages) (results_wanted inp)
           \<and> (\<forall>i<length pages. page_records env (Suc i) (pages ! i))"
  using scrape_pages [OF assms] by blast

theorem scrape_order_witness:
  "fst (scrape fixture_env \<lparr>results_wanted = 10\<rparr>)
     = Inr \<lparr>jobs = [fixture_record ''A'' ''/jobs/1'', fixture_record ''B'' ''/jobs/2'',
                    fixture_record ''C'' ''https://www.standoutsearch.com/jobs/3'']\<rparr>
   \<and> (\<exists>pages. [fixture_record ''A'' ''/jobs/1'', fixture_record ''B'' ''/jobs/2'',
                 fixture_record ''C'' ''https://www.standoutsearch.com/jobs/3'']
                  = py_slice_to (concat pages) 10
          \<and> (\<forall>i<length pages. page_records fixture_env (Suc i) (pages ! i)))"
  using scrape_order [OF fixture_scrape_10] fixture_scrape_10 by simp

text \<open>
  C10. Detail merging happens before the quota truncation: on every listing page that
  contributes records, \<open>fetch_html\<close> is called once for every container of the page, in
  order, whatever the remaining quota, and only then the accumulated list is cut to its
  first \<open>Q\<close> records. In the witness the quota is 1 and the first page has two
  containers: two detail fetches occur and only the first record is returned.
\<close>

theorem merge_before_truncation:
  assumes "fst (scrape env inp) = Inr r"
  shows "\<exists>pages. (\<forall>i<length pages. page_records env (Suc i) (pages ! i))
           \<and> detail_calls (snd (scrape env inp))
               = map (\<lambda>jp. FetchHtml (the (job_url jp))) (concat pages)
           \<and> jobs r = py_slice_to (concat pages) (results_wanted inp)"
  using scrape_pages [OF assms] by blast

theorem merge_before_truncation_witness:
  "fst (scrape fixture_env \<lparr>results_wanted = 1\<rparr>) = Inr \<lparr>jobs = [fixture_record ''A'' ''/jobs/1'']\<rparr>
   \<and> detail_calls (snd (scrape fixture_env \<lparr>results_wanted = 1\<rparr>))
       = [FetchHtml ''/jobs/1'', FetchHtml ''/jobs/2'']
   \<and> (\<exists>pages. (\<forall>i<length pages. page_records fixture_env (Suc i) (pages ! i))
          \<and> [FetchHtml ''/jobs/1'', FetchHtml ''/jobs/2'']
              = map (\<lambda>jp. FetchHtml (the (job_url jp))) (concat pages)
          \<and> [fixture_record ''A'' ''/jobs/1''] = py_slice_to (concat pages) 1)"
  using merge_before_truncation [OF fixture_scrape_1] fixture_scrape_1 fixture_scrape_1_calls
  by simp

text \<open>
  C3. The scraper never fetches a listing page once the number of collected records has
  reached the quota \<open>Q\<close>: the check comes first in every round of the loop, so a round
  that starts with \<open>Q\<close> or more records returns them without any effect; in the trace
  of a whole run, fewer than \<open>Q\<close> calls of \<open>fetch_html\<close> precede every listing fetch
  (a run that reaches a listing fetch has raised nothing, so these calls are the records
  collected so far); and for \<open>Q = 0\<close> the trace is empty: no listing page is fetched.
\<close>

theorem quota_checked_before_fetch:
  "(results_wanted inp \<le> int (length job_list) \<longrightarrow>
      scrape_loop env inp job_list page = (Inr job_list, []))
   \<and> (snd (scrape env inp) = pre @ ListingGet u # post \<longrightarrow>
      int (length (detail_calls pre)) < results_wanted inp)
   \<and> (results_wanted inp \<le> 0 \<longrightarrow> snd (scrape env inp) = [])"
proof (intro conjI impI)
  assume "results_wanted inp \<le> int (length job_list)"
  then show "scrape_loop env inp job_list page = (Inr job_list, [])"
    by (rule scrape_loop_done)
next
  assume tr: "snd (scrape env inp) = pre @ ListingGet u # post"
  have "quota_respected (results_wanted inp) 0 (snd (scrape env inp))"
    using scrape_loop_quota_respected [of inp "[]" env 1] by (simp add: scrape_trace)
  with tr quota_respected_before_get [of "results_wanted inp" 0 pre u post]
  show "int (length (detail_calls pre)) < results_wanted inp" by simp
next
  assume "results_wanted inp \<le> 0"
  then show "snd (scrape env inp) = []"
    by (simp add: scrape_trace scrape_loop_done)
qed

theorem quota_checked_before_fetch_witness:
  "results_wanted \<lparr>results_wanted = 0\<rparr> \<le> int (length ([] :: job_post list))
   \<and> scrape_loop fixture_env \<lparr>results_wanted = 0\<rparr> [] 1 = (Inr [], [])
   \<and> snd (scrape fixture_env \<lparr>results_wanted = 0\<rparr>) = []
   \<and> snd (scrape fixture_env \<lparr>results_wanted = 3\<rparr>)
       = [LogInfo ''StandOutSearch search page: 1'',
          ListingGet ''https://www.standoutsearch.com/jobs?page=1'',
          FetchHtml ''/jobs/1'', DetailGet ''/jobs/1'',
          FetchHtml ''/jobs/2'', DetailGet ''/jobs/2'', Sleep 5,
          LogInfo ''StandOutSearch search page: 2'']
         @ ListingGet ''https://www.standoutsearch.com/jobs?page=2''
         # [FetchHtml ''https://www.standoutsearch.com/jobs/3'',
            DetailGet ''https://www.standoutsearch.com/jobs/3'', Sleep 5]
   \<and> int (length (detail_calls
         [LogInfo ''StandOutSearch search page: 1'',
          ListingGet ''https://www.standoutsearch.com/jobs?page=1'',
          FetchHtml ''/jobs/1'', DetailGet ''/jobs/1'',
          FetchHtml ''/jobs/2'', DetailGet ''/jobs/2'', Sleep 5,
          LogInfo ''StandOutSearch search page: 2''])) < results_wanted \<lparr>results_wanted = 3\<rparr>"
proof -
  have z: "results_wanted \<lparr>results_wanted = 0\<rparr> \<le> int (length ([] :: job_post list))"
    "results_wanted \<lparr>results_wanted = 0\<rparr> \<le> 0"
    by simp_all
  from quota_checked_before_fetch [of "\<lparr>results_wanted = 0\<rparr>" "[]" fixture_env 1] z
  have a: "scrape_loop fixture_env \<lparr>results_wanted = 0\<rparr> [] 1 = (Inr [], [])"
    "snd (scrape fixture_env \<lparr>results_wanted = 0\<rparr>) = []"
    by blast+
  from quota_checked_before_fetch [of "\<lparr>results_wanted = 3\<rparr>" "[]" fixture_env 1] fixture_scrape_3_trace
  have b: "int (length (detail_calls
         [LogInfo ''StandOutSearch search page: 1'',
          ListingGet ''https://www.standoutsearch.com/jobs?page=1'',
          FetchHtml ''/jobs/1'', DetailGet ''/jobs/1'',
          FetchHtml ''/jobs/2'', DetailGet ''/jobs/2'', Sleep 5,
          LogInfo ''StandOutSearch search page: 2''])) < results_wanted \<lparr>results_wanted = 3\<rparr>"
    by blast
  from z(1) a b fixture_scrape_3_trace show ?thesis by blast
qed









text \<open>
  C8. For a job whose link on the listing page is site-relative, the GET for the detail
  page goes to that link resolved against the base host, an absolute URL; an absolute
  link is requested as it is. \<open>_process_job\<close> itself hands the \<^verbatim>\<open>href\<close> to
  \<open>fetch_html\<close> unchanged; the resolution is that of \<open>fetch_html_spec\<close>, the detail
  fetch as the specification describes it.
\<close>

theorem detail_get_resolved:
  assumes "fetch_html env = fetch_html_spec (session_get env)"
    and "find_first (contents c) ''p'' ''chakra-text css-134zrag'' = Some t"
    and "find_first (contents c) ''p'' ''chakra-text css-14pw5qv'' = Some co"
    and "find_first (contents c) ''a'' ''chakra-link chakra-button css-19vrdtv'' = Some link"
    and "get_attr link ''href'' = Some href"
  shows "snd (process_job env c) = [FetchHtml href, DetailGet (resolve_url base_url href)]
         \<and> (site_relative href \<longrightarrow>
               resolve_url base_url href = base_url @ href \<and> is_absolute_url (base_url @ href))
         \<and> (is_absolute_url href \<longrightarrow> resolve_url base_url href = href)"
proof (intro conjI impI)
  show "snd (process_job env c) = [FetchHtml href, DetailGet (resolve_url base_url href)]"
    using assms by (rule process_job_spec_trace)
next
  assume "site_relative href"
  then show "resolve_url base_url href = base_url @ href"
    using site_relative_not_absolute [of href] by (simp add: resolve_url_def)
next
  show "is_absolute_url (base_url @ href)" by (rule base_url_absolute)
next
  assume "is_absolute_url href"
  then show "resolve_url base_url href = href" by (simp add: resolve_url_def)
qed

theorem detail_get_resolved_witness:
  "site_relative ''/jobs/1''
   \<and> snd (process_job fixture_spec_env (fixture_card ''A'' ''/jobs/1'', []))
       = [FetchHtml ''/jobs/1'', DetailGet ''https://www.standoutsearch.com/jobs/1'']
   \<and> is_absolute_url ''https://www.standoutsearch.com/jobs/1''
   \<and> is_absolute_url ''https://www.standoutsearch.com/jobs/3''
   \<and> snd (process_job fixture_spec_env (fixture_card ''C'' ''https://www.standoutsearch.com/jobs/3'', []))
       = [FetchHtml ''https://www.standoutsearch.com/jobs/3'',
          DetailGet ''https://www.standoutsearch.com/jobs/3'']"
proof -
  let ?u1 = "''/jobs/1''" and ?u3 = "''https://www.standoutsearch.com/jobs/3''"
  let ?c1 = "(fixture_card ''A'' ?u1, [] :: node list)"
  let ?c3 = "(fixture_card ''C'' ?u3, [] :: node list)"
  have env: "fetch_html fixture_spec_env = fetch_html_spec (session_get fixture_spec_env)"
    by (simp add: fixture_spec_env_def)
  have rel: "site_relative ?u1" by code_simp
  have ab: "is_absolute_url ?u3" by code_simp
  obtain t1 co1 l1 where c1:
    "find_first (contents ?c1) ''p'' ''chakra-text css-134zrag'' = Some t1"
    "find_first (contents ?c1) ''p'' ''chakra-text css-14pw5qv'' = Some co1"
    "find_first (contents ?c1) ''a'' ''chakra-link chakra-button css-19vrdtv'' = Some l1"
    "get_attr l1 ''href'' = Some ?u1"
    by (simp add: fixture_card_def find_first_def)
  obtain t3 co3 l3 where c3:
    "find_first (contents ?c3) ''p'' ''chakra-text css-134zrag'' = Some t3"
    "find_first (contents ?c3) ''p'' ''chakra-text css-14pw5qv'' = Some co3"
    "find_first (contents ?c3) ''a'' ''chakra-link chakra-button css-19vrdtv'' = Some l3"
    "get_attr l3 ''href'' = Some ?u3"
    by (simp add: fixture_card_def find_first_def)
  from detail_get_resolved [OF env c1] rel
  have one: "snd (process_job fixture_spec_env ?c1) = [FetchHtml ?u1, DetailGet (base_url @ ?u1)]"
    "is_absolute_url (base_url @ ?u1)"
    by simp_all
  from detail_get_resolved [OF env c3] ab
  have two: "snd (process_job fixture_spec_env ?c3) = [FetchHtml ?u3, DetailGet ?u3]"
    by simp
  from rel ab one two show ?thesis by (simp add: base_url_def)
qed

end
